theory Spec2Isabelle
  imports Complex_Main "HOL-Library.Log_Nat" "HOL-Library.Sublist" "HOL-Library.Multiset"
begin

section \<open>Python strings\<close>

text \<open>
  A Python \<open>str\<close> is a sequence of Unicode code points, so it is modelled as a list of
  naturals. \<open>lit\<close> embeds an ASCII literal; the three non-ASCII characters the program
  writes are named below.
\<close>

type_synonym pystr = "nat list"

definition lit :: "string \<Rightarrow> pystr" where
  "lit = map of_char"

definition em_dash :: pystr where
  \<comment> \<open>U+2014, the placeholder of \<open>fsgn\<close> and \<open>fnum\<close>\<close>
  "em_dash = [8212]"

definition Delta_sym :: pystr where
  \<comment> \<open>U+0394, the Greek capital delta of the label\<close>
  "Delta_sym = [916]"

definition isspace :: "nat \<Rightarrow> bool" where
  \<comment> \<open>the code points for which \<open>str.isspace\<close> holds; \<open>str.strip()\<close> removes them\<close>
  "isspace c = (c \<in> set [9, 10, 11, 12, 13, 28, 29, 30, 31, 32, 133, 160, 5760,
      8192, 8193, 8194, 8195, 8196, 8197, 8198, 8199, 8200, 8201, 8202,
      8232, 8233, 8239, 8287, 12288])"

definition strip :: "pystr \<Rightarrow> pystr" where
  "strip s = rev (dropWhile isspace (rev (dropWhile isspace s)))"

text \<open>
  \<open>s.replace(old, new)\<close> for a non-empty \<open>old\<close>: occurrences are found from the left
  and do not overlap. The program only calls it with non-empty patterns.
\<close>

fun replace :: "pystr \<Rightarrow> pystr \<Rightarrow> pystr \<Rightarrow> pystr" where
  "replace old new [] = []"
| "replace old new (c # cs) =
     (if old \<noteq> [] \<and> prefix old (c # cs)
      then new @ replace old new (drop (length old - 1) cs)
      else c # replace old new cs)"

text \<open>\<open>sub in s\<close>: \<open>sub\<close> occurs in \<open>s\<close> as a contiguous block.\<close>

fun contains :: "pystr \<Rightarrow> pystr \<Rightarrow> bool" where
  "contains sub [] = (sub = [])"
| "contains sub (c # cs) = (prefix sub (c # cs) \<or> contains sub cs)"

text \<open>\<open>s.rfind(c)\<close> for a one-character pattern: the highest index, or \<open>-1\<close>.\<close>

fun rfind_from :: "nat \<Rightarrow> pystr \<Rightarrow> int \<Rightarrow> int \<Rightarrow> int" where
  \<comment> \<open>scan from index \<open>i\<close>, \<open>r\<close> is the last index found so far\<close>
  "rfind_from c [] i r = r"
| "rfind_from c (x # xs) i r = rfind_from c xs (i + 1) (if x = c then i else r)"

definition rfind :: "pystr \<Rightarrow> nat \<Rightarrow> int" where
  "rfind s c = rfind_from c s 0 (- 1)"

text \<open>
  \<open>str.lower()\<close> on the ASCII and Latin-1 letters. Code points above U+00FF are left
  as they are: Unicode lower-cases none of them to a letter of \<open>presen\<close>, the only
  text the program looks for in a lower-cased string.
\<close>

definition lower_cp :: "nat \<Rightarrow> nat" where
  "lower_cp c = (if (65 \<le> c \<and> c \<le> 90) \<or> (192 \<le> c \<and> c \<le> 222 \<and> c \<noteq> 215)
                 then c + 32 else c)"

definition lower :: "pystr \<Rightarrow> pystr" where
  "lower = map lower_cp"

fun digits10 :: "nat \<Rightarrow> pystr" where
  "digits10 n = (if n < 10 then [48 + n] else digits10 (n div 10) @ [48 + n mod 10])"

declare digits10.simps [simp del]

section \<open>Binary64 floating point\<close>

text \<open>
  The values of \<open>numpy.float64\<close> and of Python's \<open>float\<close>: not-a-number, the two
  infinities, and sign and magnitude of a finite number (\<open>True\<close> is the minus sign, so
  \<open>Num True 0\<close> is \<open>-0.0\<close>). The magnitude is an exact rational; every operation
  rounds its exact result to the nearest representable magnitude, ties to even.
\<close>

datatype float64 = NaN | Inf bool | Num bool rat

definition pow2 :: "int \<Rightarrow> rat" where
  "pow2 e = (if 0 \<le> e then 2 ^ nat e else 1 / 2 ^ nat (- e))"

definition pow10 :: "int \<Rightarrow> rat" where
  "pow10 e = (if 0 \<le> e then 10 ^ nat e else 1 / 10 ^ nat (- e))"

definition round_half_even :: "rat \<Rightarrow> int" where
  "round_half_even q =
     (let f = \<lfloor>q\<rfloor>; r = q - of_int f
      in if r < 1 / 2 then f else if 1 / 2 < r then f + 1
         else if even f then f else f + 1)"

definition ilog2 :: "rat \<Rightarrow> int" where
  \<comment> \<open>for \<open>0 < q\<close>: the \<open>e\<close> with \<open>2 ^ e \<le> q < 2 ^ (e + 1)\<close>\<close>
  "ilog2 q = (if 1 \<le> q then bitlen \<lfloor>q\<rfloor> - 1 else - bitlen (\<lceil>1 / q\<rceil> - 1))"

definition round_mag :: "rat \<Rightarrow> rat option" where
  \<comment> \<open>nearest binary64 magnitude of \<open>0 \<le> q\<close> (53 significant bits, exponents from
      \<open>-1022\<close>, gradual underflow); \<open>None\<close> is overflow\<close>
  "round_mag q =
     (if q = 0 then Some 0 else
      let e = max (ilog2 q) (- 1022);
          ulp = pow2 (e - 52);
          v = of_int (round_half_even (q / ulp)) * ulp
      in if pow2 1024 \<le> v then None else Some v)"

definition rnd :: "bool \<Rightarrow> rat \<Rightarrow> float64" where
  "rnd s q = (case round_mag q of None \<Rightarrow> Inf s | Some v \<Rightarrow> Num s v)"

definition representable :: "float64 \<Rightarrow> bool" where
  \<comment> \<open>the finite magnitude is one a binary64 can hold: rounding leaves it alone\<close>
  "representable x = (case x of Num s m \<Rightarrow> 0 \<le> m \<and> round_mag m = Some m | _ \<Rightarrow> True)"

definition sval :: "bool \<Rightarrow> rat \<Rightarrow> rat" where
  "sval s m = (if s then - m else m)"

definition rnd_signed :: "rat \<Rightarrow> float64" where
  "rnd_signed v = rnd (v < 0) \<bar>v\<bar>"

text \<open>
  IEEE subtraction, division and multiplication, as numpy performs them on float64
  arrays (no operation raises; division by zero gives an infinity or not-a-number).
\<close>

fun fsub :: "float64 \<Rightarrow> float64 \<Rightarrow> float64" where
  "fsub NaN _ = NaN"
| "fsub _ NaN = NaN"
| "fsub (Inf s) (Inf t) = (if s = t then NaN else Inf s)"
| "fsub (Inf s) (Num _ _) = Inf s"
| "fsub (Num _ _) (Inf t) = Inf (\<not> t)"
| "fsub (Num s m) (Num t n) =
     (let v = sval s m - sval t n
      in if v = 0 then Num (s \<and> \<not> t) 0 else rnd_signed v)"

fun fdiv :: "float64 \<Rightarrow> float64 \<Rightarrow> float64" where
  "fdiv NaN _ = NaN"
| "fdiv _ NaN = NaN"
| "fdiv (Inf s) (Inf t) = NaN"
| "fdiv (Inf s) (Num t _) = Inf (s \<noteq> t)"
| "fdiv (Num s _) (Inf t) = Num (s \<noteq> t) 0"
| "fdiv (Num s m) (Num t n) =
     (if n = 0 then (if m = 0 then NaN else Inf (s \<noteq> t))
      else rnd (s \<noteq> t) (m / n))"

fun fmul :: "float64 \<Rightarrow> float64 \<Rightarrow> float64" where
  "fmul NaN _ = NaN"
| "fmul _ NaN = NaN"
| "fmul (Inf s) (Inf t) = Inf (s \<noteq> t)"
| "fmul (Inf s) (Num t n) = (if n = 0 then NaN else Inf (s \<noteq> t))"
| "fmul (Num s m) (Inf t) = (if m = 0 then NaN else Inf (s \<noteq> t))"
| "fmul (Num s m) (Num t n) = rnd (s \<noteq> t) (m * n)"

definition isna :: "float64 \<Rightarrow> bool" where
  \<comment> \<open>\<open>pd.isna\<close> on a float: true of not-a-number only, an infinity is not missing\<close>
  "isna x = (x = NaN)"

definition float_lit :: "rat \<Rightarrow> float64" where
  \<comment> \<open>the value of a decimal literal such as \<open>452.74\<close>: the nearest binary64\<close>
  "float_lit q = rnd_signed q"

text \<open>
  \<open>format(x, '.2f')\<close> and \<open>format(x, '+.2f')\<close>: the exact value of the float rounded
  to two decimals, ties to even; the sign is printed for a negative float (also for
  \<open>-0.0\<close>), and with the \<open>+\<close> flag for every other one as well.
\<close>

definition fmt_mag :: "rat \<Rightarrow> pystr" where
  "fmt_mag m = (let n = nat (round_half_even (m * 100))
                in digits10 (n div 100) @ lit ''.'' @ [48 + n mod 100 div 10, 48 + n mod 10])"

definition sign_str :: "bool \<Rightarrow> bool \<Rightarrow> pystr" where
  "sign_str always s = (if s then lit ''-'' else if always then lit ''+'' else [])"

fun format_2f :: "bool \<Rightarrow> float64 \<Rightarrow> pystr" where
  "format_2f always NaN = sign_str always False @ lit ''nan''"
| "format_2f always (Inf s) = sign_str always s @ lit ''inf''"
| "format_2f always (Num s m) = sign_str always s @ fmt_mag m"

section \<open>Errors\<close>

datatype error =
    AttributeError pystr pystr  \<comment> \<open>type name, attribute name\<close>
  | IndexError
  | OverflowError

section \<open>The number parser\<close>

text \<open>
  A spreadsheet cell as \<open>read_excel\<close> delivers it: empty (\<open>None\<close>), a Python
  \<open>int\<close>, a \<open>float\<close> (an empty cell of a numeric column is the float
  not-a-number) or a \<open>str\<close>.
\<close>

datatype cell = CNone | CInt int | CFloat float64 | CStr pystr

definition py_float :: "int \<Rightarrow> error + float64" where
  \<comment> \<open>\<open>float(i)\<close> of a Python int: rounds, and raises when the int is too large\<close>
  "py_float i = (case round_mag \<bar>of_int i\<bar> of
                   None \<Rightarrow> Inl OverflowError
                 | Some v \<Rightarrow> Inr (Num (i < 0) v))"

text \<open>
  \<open>pd.to_numeric(s, errors="coerce")\<close> on a string is library code. It is modelled by
  what the library documents: leading and trailing ASCII white space is skipped, then
  an optional sign, decimal digits with at most one point and at least one digit, and
  an optional exponent are read as the nearest float; the spellings of infinity are
  accepted; every other string, the empty one too, is coerced to not-a-number.
\<close>

definition isdigit :: "nat \<Rightarrow> bool" where
  "isdigit c = (48 \<le> c \<and> c \<le> 57)"

definition isspace_ascii :: "nat \<Rightarrow> bool" where
  "isspace_ascii c = (c = 32 \<or> (9 \<le> c \<and> c \<le> 13))"

definition digits_val :: "pystr \<Rightarrow> nat" where
  "digits_val ds = foldl (\<lambda>a c. 10 * a + (c - 48)) 0 ds"

definition split_sign :: "pystr \<Rightarrow> bool \<times> pystr" where
  "split_sign s = (case s of
       [] \<Rightarrow> (False, [])
     | c # cs \<Rightarrow> if c = 45 then (True, cs) else if c = 43 then (False, cs) else (False, s))"

definition parse_exponent :: "pystr \<Rightarrow> int option" where
  "parse_exponent s = (case s of
       [] \<Rightarrow> Some 0
     | c # cs \<Rightarrow>
         if c = 101 \<or> c = 69 then
           (case split_sign cs of (neg, ds) \<Rightarrow>
              if ds \<noteq> [] \<and> list_all isdigit ds
              then Some (if neg then - int (digits_val ds) else int (digits_val ds))
              else None)
         else None)"

definition parse_fraction :: "pystr \<Rightarrow> pystr \<times> pystr" where
  \<comment> \<open>the digits after a decimal point, if there is one, and the rest\<close>
  "parse_fraction r = (case r of
       [] \<Rightarrow> ([], [])
     | c # cs \<Rightarrow> if c = 46 then (takeWhile isdigit cs, dropWhile isdigit cs) else ([], r))"

definition parse_decimal :: "pystr \<Rightarrow> (bool \<times> rat) option" where
  "parse_decimal s =
     (case split_sign s of (neg, r) \<Rightarrow>
        let ip = takeWhile isdigit r in
        (case parse_fraction (dropWhile isdigit r) of (fp, r2) \<Rightarrow>
           if ip = [] \<and> fp = [] then None
           else (case parse_exponent r2 of
                   None \<Rightarrow> None
                 | Some e \<Rightarrow>
                     Some (neg, of_nat (digits_val (ip @ fp)) * pow10 (e - int (length fp))))))"

definition parse_inf :: "pystr \<Rightarrow> float64 option" where
  "parse_inf s =
     (let t = lower s in
      if t \<in> set [lit ''inf'', lit ''+inf'', lit ''infinity'', lit ''+infinity'']
      then Some (Inf False)
      else if t \<in> set [lit ''-inf'', lit ''-infinity''] then Some (Inf True)
      else None)"

definition parse_float :: "pystr \<Rightarrow> float64 option" where
  \<comment> \<open>\<open>None\<close>: the string is not the text of a number\<close>
  "parse_float s0 =
     (let s = rev (dropWhile isspace_ascii (rev (dropWhile isspace_ascii s0)))
      in case parse_decimal s of
           Some (neg, q) \<Rightarrow> Some (rnd neg q)
         | None \<Rightarrow> parse_inf s)"

definition to_numeric :: "pystr \<Rightarrow> float64" where
  \<comment> \<open>\<open>errors="coerce"\<close>: what does not parse becomes not-a-number\<close>
  "to_numeric s = (case parse_float s of Some v \<Rightarrow> v | None \<Rightarrow> NaN)"

text \<open>
  \<open>parse_br_number\<close>, lines 37 to 51. \<open>strip_symbols\<close> is lines 40 and 41,
  \<open>fix_separators\<close> lines 42 to 50, and \<open>canonical\<close> the string handed to
  \<open>pd.to_numeric\<close>.
\<close>

definition cell_isna :: "cell \<Rightarrow> bool" where
  \<comment> \<open>\<open>pd.isna(x)\<close> on a scalar cell\<close>
  "cell_isna x = (case x of CNone \<Rightarrow> True | CFloat f \<Rightarrow> isna f | _ \<Rightarrow> False)"

definition comma :: nat where "comma = 44"

definition dot :: nat where "dot = 46"

definition strip_symbols :: "pystr \<Rightarrow> pystr" where
  "strip_symbols x =
     (let s = replace [32] [] (replace [160] [] (strip x));
          s = replace (lit ''R$'') [] s
      in replace (lit ''%'') [] s)"

definition fix_separators :: "pystr \<Rightarrow> pystr" where
  "fix_separators s =
     (if contains [comma] s \<and> contains [dot] s then
        (if rfind s comma > rfind s dot
         then replace [comma] [dot] (replace [dot] [] s)
         else replace [comma] [] s)
      else if contains [comma] s then replace [comma] [dot] (replace [dot] [] s)
      else replace [comma] [] s)"

definition canonical :: "pystr \<Rightarrow> pystr" where
  "canonical x = fix_separators (strip_symbols x)"

definition parse_br_number :: "cell \<Rightarrow> error + float64" where
  "parse_br_number x =
     (if cell_isna x then Inr NaN
      else case x of
             CInt i \<Rightarrow> py_float i
           | CFloat f \<Rightarrow> Inr f
           | CStr t \<Rightarrow> Inr (to_numeric (canonical t))
           | CNone \<Rightarrow> Inr NaN)"

text \<open>
  The words of the specification for the separator rule: the separator that occurs
  later in the string, and the two readings of a string.
\<close>

definition is_sep :: "nat \<Rightarrow> bool" where
  "is_sep c = (c = comma \<or> c = dot)"

definition later_separator :: "pystr \<Rightarrow> nat" where
  "later_separator x = last (filter is_sep x)"

definition comma_is_decimal :: "pystr \<Rightarrow> pystr" where
  \<comment> \<open>every dot is grouping and goes, every comma becomes the decimal point\<close>
  "comma_is_decimal s = map (\<lambda>c. if c = comma then dot else c) (filter (\<lambda>c. c \<noteq> dot) s)"

definition dot_is_decimal :: "pystr \<Rightarrow> pystr" where
  \<comment> \<open>every comma is grouping and goes, the dots stay\<close>
  "dot_is_decimal s = filter (\<lambda>c. c \<noteq> comma) s"

section \<open>The sheet and its long form\<close>

text \<open>
  One sheet as \<open>read_excel\<close> returns it, column by column: column A holds the group
  label of each row (a string, or nothing for an empty cell), every further column is
  one evaluation round, with its header and its cells. The frame is rectangular, and
  pandas keeps its column labels distinct; \<open>preparar_df\<close> names column A
  \<open>Regional\<close>, so no other column may carry that label, and \<open>melt\<close> refuses a
  frame that already has a column named like its value column, \<open>Nota\<close>.
\<close>

record dataframe =
  column_A :: "pystr option list"
  aval_cols :: "(pystr \<times> cell list) list"

definition well_formed :: "dataframe \<Rightarrow> bool" where
  "well_formed df =
     (list_all (\<lambda>(c, cells). length cells = length (column_A df)) (aval_cols df)
      \<and> distinct (map fst (aval_cols df))
      \<and> lit ''Regional'' \<notin> set (map fst (aval_cols df))
      \<and> lit ''Nota'' \<notin> set (map fst (aval_cols df)))"

record long_row =
  Regional :: "pystr option"
  Avaliacao :: pystr
  Nota :: float64

text \<open>
  The long table carries the ordered category set of its \<open>Avaliacao\<close> column
  (\<open>pd.Categorical(..., categories=aval_cols, ordered=True)\<close>) next to its rows.
\<close>

record long_table =
  categories :: "pystr list"
  long_rows :: "long_row list"

definition py_str :: "pystr option \<Rightarrow> pystr" where
  \<comment> \<open>\<open>str(x)\<close> of a label cell; an empty cell is the float not-a-number\<close>
  "py_str x = (case x of None \<Rightarrow> lit ''nan'' | Some s \<Rightarrow> s)"

definition is_numeric_dtype :: "cell list \<Rightarrow> bool" where
  \<comment> \<open>the column was read as int64 or float64: no string in it, and every int fits\<close>
  "is_numeric_dtype cells =
     list_all (\<lambda>x. case x of
                      CStr _ \<Rightarrow> False
                    | CInt i \<Rightarrow> - (2 ^ 63) \<le> i \<and> i < 2 ^ 64
                    | _ \<Rightarrow> True) cells"

definition numeric_value :: "cell \<Rightarrow> float64" where
  \<comment> \<open>the entry of a numeric column as the float64 the long table holds: \<open>melt\<close>
      puts an int64 column next to a float column into one float64 column (a sheet
      whose round columns are all int64 keeps the integers, the same numbers up to
      \<open>2 ^ 53\<close>)\<close>
  "numeric_value x = (case x of
       CInt i \<Rightarrow> rnd (i < 0) \<bar>of_int i\<bar>
     | CFloat f \<Rightarrow> f
     | _ \<Rightarrow> NaN)"

fun collect :: "(error + 'a) list \<Rightarrow> error + 'a list" where
  "collect [] = Inr []"
| "collect (x # xs) =
     (case x of
        Inl e \<Rightarrow> Inl e
      | Inr v \<Rightarrow> (case collect xs of Inl e \<Rightarrow> Inl e | Inr vs \<Rightarrow> Inr (v # vs)))"

definition normalise_column :: "bool \<Rightarrow> cell list \<Rightarrow> error + float64 list" where
  \<comment> \<open>lines 71 and 72 for one column; \<open>numeric\<close> is \<open>is_numeric_dtype(df[c])\<close>\<close>
  "normalise_column numeric cells =
     (if numeric then Inr (map numeric_value cells)
      else collect (map parse_br_number cells))"

definition melt :: "pystr option list \<Rightarrow> (pystr \<times> float64 list) list \<Rightarrow> long_row list" where
  \<comment> \<open>\<open>df.melt\<close>: the value columns one after the other, each over all rows\<close>
  "melt labels cols =
     concat (map (\<lambda>(c, vals).
        map (\<lambda>(g, v). \<lparr>Regional = g, Avaliacao = c, Nota = v\<rparr>) (zip labels vals)) cols)"

definition has_presence_marker :: "dataframe \<Rightarrow> bool" where
  \<comment> \<open>lines 64 and 65, for a frame with at least one row\<close>
  "has_presence_marker df =
     (let ultima_rotulo = lower (py_str (last (column_A df)))
      in contains (lit ''presen'') ultima_rotulo)"

definition kept_labels :: "dataframe \<Rightarrow> pystr option list" where
  \<comment> \<open>column A after line 66\<close>
  "kept_labels df = (if has_presence_marker df then butlast (column_A df) else column_A df)"


definition preparar_df :: "dataframe \<Rightarrow> error + long_table" where
  "preparar_df df =
     (if column_A df = [] then Inl IndexError
      else
        let drop_last = has_presence_marker df;
            labels = (if drop_last then butlast (column_A df) else column_A df);
            cols = map (\<lambda>(c, cells).
                          normalise_column (is_numeric_dtype cells)
                            (if drop_last then butlast cells else cells))
                       (aval_cols df)
        in case collect cols of
             Inl e \<Rightarrow> Inl e
           | Inr vals \<Rightarrow>
               Inr \<lparr>categories = map fst (aval_cols df),
                    long_rows = melt labels (zip (map fst (aval_cols df)) vals)\<rparr>)"

section \<open>The metrics of one group\<close>

record metric_row = long_row +
  Nota_anterior :: float64
  Delta :: float64
  Delta_pct :: float64
  label_text :: pystr
  hover_text :: pystr

definition fsgn :: "float64 \<Rightarrow> pystr" where
  "fsgn x = (if isna x then em_dash else format_2f True x)"

definition fnum :: "float64 \<Rightarrow> pystr" where
  "fnum x = (if isna x then em_dash else format_2f False x)"

definition category_code :: "pystr list \<Rightarrow> pystr \<Rightarrow> nat" where
  \<comment> \<open>the position of a label in the ordered category set\<close>
  "category_code cats c = length (takeWhile (\<lambda>x. x \<noteq> c) cats)"

text \<open>
  Line 83: the rows of the group, ordered by category code. Rows of equal code keep
  their order here; pandas does not promise that, and nothing below depends on it
  unless it says that the group has one row per category.
\<close>

definition select_sorted :: "long_table \<Rightarrow> pystr \<Rightarrow> long_row list" where
  "select_sorted df_long regional =
     sort_key (\<lambda>r. category_code (categories df_long) (Avaliacao r))
       (filter (\<lambda>r. Regional r = Some regional) (long_rows df_long))"

definition shift1 :: "float64 list \<Rightarrow> float64 list" where
  \<comment> \<open>\<open>Series.shift(1)\<close>: each value moves down one row, the first row gets not-a-number\<close>
  "shift1 xs = (if xs = [] then [] else NaN # butlast xs)"

definition hundred :: float64 where
  "hundred = Num False 100"

definition short_label :: "float64 \<Rightarrow> pystr" where
  \<comment> \<open>line 96\<close>
  "short_label nota = lit ''Nota '' @ fnum nota"

definition long_label :: "float64 \<Rightarrow> float64 \<Rightarrow> float64 \<Rightarrow> pystr" where
  \<comment> \<open>line 97\<close>
  "long_label nota delta delta_pct =
     lit ''Nota '' @ fnum nota @ lit '' ('' @ Delta_sym @ lit '' '' @ fsgn delta
     @ lit ''; '' @ fsgn delta_pct @ lit ''%)''"

definition metric :: "long_row \<Rightarrow> float64 \<Rightarrow> metric_row" where
  \<comment> \<open>lines 87 to 106 for one row, given its shifted value\<close>
  "metric r prev =
     (let delta = fsub (Nota r) prev;
          delta_pct = fmul (fdiv delta prev) hundred
      in \<lparr>Regional = Regional r, Avaliacao = Avaliacao r, Nota = Nota r,
          Nota_anterior = prev, Delta = delta, Delta_pct = delta_pct,
          label_text =
            (if isna prev then short_label (Nota r)
             else long_label (Nota r) delta delta_pct),
          hover_text =
            lit ''<b>'' @ Avaliacao r @ lit ''</b>''
            @ lit ''<br>Nota: '' @ fnum (Nota r)
            @ lit ''<br>Varia'' @ [231, 227] @ lit ''o Absoluta: '' @ fsgn delta
            @ lit ''<br>Varia'' @ [231, 227] @ lit ''o Percentual: '' @ fsgn delta_pct
            @ lit ''%''\<rparr>)"

text \<open>
  \<open>montar_base\<close>, lines 82 to 107, for a group that has at least one row (the
  script offers only the labels found in the table).
\<close>

definition montar_base :: "long_table \<Rightarrow> pystr \<Rightarrow> metric_row list" where
  "montar_base df_long regional =
     (let base = select_sorted df_long regional
      in map (\<lambda>(r, prev). metric r prev) (zip base (shift1 (map Nota base))))"

section \<open>Sample tables\<close>

text \<open>
  One group \<open>A\<close> over the rounds \<open>R10\<close>, \<open>R2\<close>, \<open>R1\<close>, in that sheet order,
  with the given values: the inputs at which the statements below are evaluated.
\<close>

definition sample_table :: "float64 list \<Rightarrow> long_table" where
  "sample_table vals =
     \<lparr>categories = [lit ''R10'', lit ''R2'', lit ''R1''],
      long_rows = map (\<lambda>(c, v). \<lparr>Regional = Some (lit ''A''), Avaliacao = c, Nota = v\<rparr>)
                    (zip [lit ''R10'', lit ''R2'', lit ''R1''] vals)\<rparr>"

definition zero_then_five :: long_table where
  "zero_then_five = sample_table [Num False 0, Num False 5]"
definition missing_then_twelve :: long_table where
  "missing_then_twelve = sample_table [NaN, Num False 12]"
definition ten_twelve_nine :: long_table where
  "ten_twelve_nine = sample_table [Num False 10, Num False 12, Num False 9]"
text \<open>
  Two groups over the same rounds, the rows of group \<open>A\<close> stored out of category
  order and with a row of group \<open>B\<close> between them.
\<close>

definition two_groups :: long_table where
  "two_groups =
     \<lparr>categories = [lit ''R10'', lit ''R2'', lit ''R1''],
      long_rows =
        [\<lparr>Regional = Some (lit ''A''), Avaliacao = lit ''R1'', Nota = Num False 9\<rparr>,
         \<lparr>Regional = Some (lit ''B''), Avaliacao = lit ''R10'', Nota = Num False 1\<rparr>,
         \<lparr>Regional = Some (lit ''A''), Avaliacao = lit ''R10'', Nota = Num False 10\<rparr>,
         \<lparr>Regional = Some (lit ''A''), Avaliacao = lit ''R2'', Nota = Num False 12\<rparr>]\<rparr>"

text \<open>
  A sheet with two groups and a closing attendance row, over the rounds \<open>R10\<close>,
  \<open>R2\<close>, \<open>R1\<close> in that column order: a text column, an integer column and a
  float column with an empty cell. \<open>unmarked_sheet\<close> is the same sheet with a third
  group in place of the attendance row, \<open>sample_long\<close> the long table of
  \<open>sample_sheet\<close>.
\<close>

definition sample_sheet :: dataframe where
  "sample_sheet =
     \<lparr>column_A = [Some (lit ''A''), Some (lit ''B''), Some (lit ''Presen'' @ [231] @ lit ''a'')],
      aval_cols =
        [(lit ''R10'', [CStr (lit ''10,0''), CFloat (Num False 3), CStr (lit ''95%'')]),
         (lit ''R2'', [CInt 12, CInt 4, CInt 90]),
         (lit ''R1'', [CFloat (Num False 9), CNone, CFloat (Num False 80)])]\<rparr>"


definition sample_long :: long_table where
  "sample_long =
     \<lparr>categories = [lit ''R10'', lit ''R2'', lit ''R1''],
      long_rows =
        [\<lparr>Regional = Some (lit ''A''), Avaliacao = lit ''R10'', Nota = Num False 10\<rparr>,
         \<lparr>Regional = Some (lit ''B''), Avaliacao = lit ''R10'', Nota = Num False 3\<rparr>,
         \<lparr>Regional = Some (lit ''A''), Avaliacao = lit ''R2'', Nota = Num False 12\<rparr>,
         \<lparr>Regional = Some (lit ''B''), Avaliacao = lit ''R2'', Nota = Num False 4\<rparr>,
         \<lparr>Regional = Some (lit ''A''), Avaliacao = lit ''R1'', Nota = Num False 9\<rparr>,
         \<lparr>Regional = Some (lit ''B''), Avaliacao = lit ''R1'', Nota = NaN\<rparr>]\<rparr>"

section \<open>The start of the script\<close>

text \<open>
  Line 10 binds \<open>EXCEL_PATH\<close> to a \<open>str\<close>; lines 133 to 135 use it as a
  \<open>pathlib.Path\<close>. A Python value is one or the other, and the attributes
  \<open>exists\<close> and \<open>name\<close> are looked up on what it is.
\<close>

datatype pyval = PyStr pystr | PyPath pystr

datatype outcome =
    Raises error
  | Stopped pystr
  | Proceeds

text \<open>
  \<open>Raises\<close>: an uncaught exception ends the run. \<open>Stopped\<close>: the message of
  \<open>st.error\<close>, followed by \<open>st.stop()\<close>. \<open>Proceeds\<close>: the check is passed and
  the workbook is read next.
\<close>

definition EXCEL_PATH :: pyval where
  "EXCEL_PATH = PyStr (lit ''Comparativo_MG.xlsx'')"

definition attr_exists :: "(pystr \<Rightarrow> bool) \<Rightarrow> pyval \<Rightarrow> error + bool" where
  \<comment> \<open>\<open>x.exists()\<close>, against the set \<open>fs\<close> of the files that are there\<close>
  "attr_exists fs x = (case x of
       PyPath p \<Rightarrow> Inr (fs p)
     | PyStr _ \<Rightarrow> Inl (AttributeError (lit ''str'') (lit ''exists'')))"

definition basename :: "pystr \<Rightarrow> pystr" where
  \<comment> \<open>the last component of a path\<close>
  "basename p = rev (takeWhile (\<lambda>c. c \<noteq> 47) (rev p))"

definition attr_name :: "pyval \<Rightarrow> error + pystr" where
  "attr_name x = (case x of
       PyPath p \<Rightarrow> Inr (basename p)
     | PyStr _ \<Rightarrow> Inl (AttributeError (lit ''str'') (lit ''name'')))"

definition startup_check :: "(pystr \<Rightarrow> bool) \<Rightarrow> pyval \<Rightarrow> outcome" where
  \<comment> \<open>lines 133 to 135, with the value of \<open>EXCEL_PATH\<close> as a parameter\<close>
  "startup_check fs path =
     (case attr_exists fs path of
        Inl e \<Rightarrow> Raises e
      | Inr True \<Rightarrow> Proceeds
      | Inr False \<Rightarrow>
          (case attr_name path of
             Inl e \<Rightarrow> Raises e
           | Inr n \<Rightarrow>
               Stopped (lit ''Arquivo n'' @ [227] @ lit ''o encontrado: '' @ n @ lit ''.'')))"

definition startup :: "(pystr \<Rightarrow> bool) \<Rightarrow> outcome" where
  "startup fs = startup_check fs EXCEL_PATH"

section \<open>The start-up check\<close>

text \<open>
  With a \<open>pathlib.Path\<close> the check does what lines 133 to 135 are written for: it
  passes when the file is there, and stops with a message that ends in the file name
  when it is not.
\<close>

lemma startup_check_path:
  "startup_check fs (PyPath p) =
     (if fs p then Proceeds
      else Stopped (lit ''Arquivo n'' @ [227] @ lit ''o encontrado: '' @ basename p @ lit ''.''))"
  by (simp add: startup_check_def attr_exists_def attr_name_def)

text \<open>
  C1. The claim: when the configured file is missing the program shows an error that
  names it and stops, and when the file is there start-up passes the check. The
  script binds \<open>EXCEL_PATH\<close> to a string, which has no \<open>exists\<close> attribute, so
  whatever files exist the check raises \<open>AttributeError\<close>: it neither passes nor
  reaches the message that names the file.
\<close>

theorem startup_raises_attribute_error:
  "startup fs = Raises (AttributeError (lit ''str'') (lit ''exists''))"
  by (simp add: startup_def startup_check_def attr_exists_def EXCEL_PATH_def)

section \<open>Evaluation and the string operations\<close>

text \<open>
  Floors and ceilings of numeral fractions, for evaluating the rounding by
  simplification.
\<close>

lemma floor_rat_num: "\<lfloor>(numeral a / numeral b :: rat)\<rfloor> = numeral a div numeral b"
  by (metis floor_divide_of_int_eq of_int_numeral)
lemma ceiling_rat_num: "\<lceil>(numeral a / numeral b :: rat)\<rceil> = - ((- numeral a) div numeral b)"
  by (metis ceiling_divide_eq_div of_int_numeral)
lemmas float_eval = rnd_def rnd_signed_def sval_def round_mag_def ilog2_def pow2_def round_half_even_def Let_def
  compute_bitlen floor_rat_num ceiling_rat_num float_lit_def
lemmas parse_eval = parse_br_number_def cell_isna_def to_numeric_def parse_float_def canonical_def
  strip_symbols_def fix_separators_def strip_def isspace_def isspace_ascii_def lit_def comma_def dot_def
  rfind_def parse_decimal_def split_sign_def parse_fraction_def parse_exponent_def parse_inf_def lower_def lower_cp_def
  isdigit_def digits_val_def pow10_def

lemma replace_single_delete: "replace [c] [] s = filter (\<lambda>x. x \<noteq> c) s"
  by (induction s) auto
lemma replace_single_map: "replace [c] [d] s = map (\<lambda>x. if x = c then d else x) s"
  by (induction s) auto
lemma contains_single: "contains [c] s \<longleftrightarrow> c \<in> set s"
  by (induction s) auto
lemma rfind_from_snoc:
  "rfind_from c (s @ [x]) i r = (if x = c then i + int (length s) else rfind_from c s i r)"
  by (induction s arbitrary: i r) auto
lemma rfind_snoc: "rfind (s @ [x]) c = (if x = c then int (length s) else rfind s c)"
  by (simp add: rfind_def rfind_from_snoc)
lemma rfind_Nil: "rfind [] c = - 1"
  by (simp add: rfind_def)
lemma rfind_less: "rfind s c < int (length s)"
  by (induction s rule: rev_induct) (auto simp: rfind_snoc rfind_Nil)

lemma rfind_later:
  "comma \<in> set s \<or> dot \<in> set s \<Longrightarrow>
   (rfind s dot < rfind s comma) = (last (filter is_sep s) = comma)"
proof (induction s rule: rev_induct)
  case Nil
  then show ?case by simp
next
  case (snoc x xs)
  show ?case
  proof (cases "is_sep x")
    case True
    then show ?thesis
      using rfind_less [of xs comma] rfind_less [of xs dot]
      by (auto simp: rfind_snoc is_sep_def comma_def dot_def)
  next
    case False
    then have "comma \<in> set xs \<or> dot \<in> set xs"
      using snoc.prems by (auto simp: is_sep_def)
    with snoc.IH False show ?thesis
      by (auto simp: rfind_snoc is_sep_def)
  qed
qed

lemma filter_dropWhile:
  "(\<And>c. P c \<Longrightarrow> \<not> Q c) \<Longrightarrow> filter P (dropWhile Q s) = filter P s"
  by (induction s) auto

lemma filter_strip:
  assumes "\<And>c. P c \<Longrightarrow> \<not> isspace c"
  shows "filter P (strip s) = filter P s"
proof -
  have "filter P (strip s) = rev (filter P (dropWhile isspace (rev (dropWhile isspace s))))"
    by (simp add: strip_def rev_filter)
  also have "\<dots> = rev (filter P (rev (dropWhile isspace s)))"
    using assms by (simp add: filter_dropWhile)
  also have "\<dots> = filter P (dropWhile isspace s)"
    by (simp add: rev_filter)
  also have "\<dots> = filter P s"
    using assms by (simp add: filter_dropWhile)
  finally show ?thesis .
qed

lemma filter_replace_delete:
  "(\<forall>c\<in>set pat. \<not> P c) \<Longrightarrow> filter P (replace pat [] s) = filter P s"
proof (induction pat "[] :: pystr" s rule: replace.induct)
  case (1 old)
  then show ?case by simp
next
  case (2 old c cs)
  show ?case
  proof (cases "old \<noteq> [] \<and> prefix old (c # cs)")
    case True
    then obtain rest where r: "c # cs = old @ rest"
      by (auto simp: prefix_def)
    with True have d: "drop (length old - 1) cs = rest"
      by (cases old) auto
    have "filter P old = []"
      using 2 by (auto simp: filter_empty_conv)
    then have "filter P (c # cs) = filter P rest"
      unfolding r by simp
    moreover have "filter P (replace old [] (c # cs)) = filter P rest"
      using True 2 d by simp
    ultimately show ?thesis by simp
  next
    case False
    with 2 show ?thesis by auto
  qed
qed

lemma sep_not_space: "is_sep c \<Longrightarrow> \<not> isspace c"
  by (auto simp: is_sep_def comma_def dot_def isspace_def)

lemma filter_strip_symbols:
  assumes "\<And>c. P c \<Longrightarrow> is_sep c"
  shows "filter P (strip_symbols x) = filter P x"
proof -
  have sp: "\<And>c. P c \<Longrightarrow> \<not> isspace c"
    using assms sep_not_space by blast
  have np: "\<not> P c" if "\<not> is_sep c" for c
    using assms that by blast
  have "filter P (strip_symbols x) = filter P (strip x)"
    by (simp add: strip_symbols_def filter_replace_delete np is_sep_def comma_def dot_def lit_def)
  then show ?thesis
    using sp by (simp add: filter_strip)
qed

lemma seps_strip_symbols: "filter is_sep (strip_symbols x) = filter is_sep x"
  by (rule filter_strip_symbols)

lemma sep_mem_strip_symbols:
  assumes "is_sep c"
  shows "c \<in> set (strip_symbols x) \<longleftrightarrow> c \<in> set x"
proof -
  have "c \<in> set (strip_symbols x) \<longleftrightarrow> c \<in> set (filter is_sep (strip_symbols x))"
    using assms by simp
  also have "\<dots> \<longleftrightarrow> c \<in> set (filter is_sep x)"
    by (simp only: seps_strip_symbols)
  also have "\<dots> \<longleftrightarrow> c \<in> set x"
    using assms by simp
  finally show ?thesis .
qed

lemma canonical_both:
  assumes "comma \<in> set x" and "dot \<in> set x"
  shows "canonical x =
     (if later_separator x = comma then comma_is_decimal (strip_symbols x)
      else dot_is_decimal (strip_symbols x))"
proof -
  let ?s = "strip_symbols x"
  have c: "comma \<in> set ?s" and d: "dot \<in> set ?s"
    using assms by (simp_all add: sep_mem_strip_symbols is_sep_def)
  have "(rfind ?s dot < rfind ?s comma) = (later_separator x = comma)"
    using c by (simp add: rfind_later later_separator_def seps_strip_symbols)
  then show ?thesis
    using c d
    by (simp add: canonical_def fix_separators_def contains_single replace_single_delete
        replace_single_map comma_is_decimal_def dot_is_decimal_def)
qed

section \<open>The number parser: separators\<close>

lemma parse_br_number_str: "parse_br_number (CStr x) = Inr (to_numeric (canonical x))"
  by (simp add: parse_br_number_def cell_isna_def)

lemma canonical_comma_only:
  assumes "comma \<in> set x" and "dot \<notin> set x"
  shows "canonical x = comma_is_decimal (strip_symbols x)"
    and "dot \<notin> set (strip_symbols x)"
proof -
  show d: "dot \<notin> set (strip_symbols x)"
    using assms by (simp add: sep_mem_strip_symbols is_sep_def)
  have c: "comma \<in> set (strip_symbols x)"
    using assms by (simp add: sep_mem_strip_symbols is_sep_def)
  show "canonical x = comma_is_decimal (strip_symbols x)"
    using c d
    by (simp add: canonical_def fix_separators_def contains_single replace_single_delete
        replace_single_map comma_is_decimal_def)
qed

lemma canonical_no_comma:
  assumes "comma \<notin> set x"
  shows "canonical x = strip_symbols x"
proof -
  have c: "comma \<notin> set (strip_symbols x)"
    using assms by (simp add: sep_mem_strip_symbols is_sep_def)
  then have "filter (\<lambda>c. c \<noteq> comma) (strip_symbols x) = strip_symbols x"
    by (auto simp: filter_id_conv)
  with c show ?thesis
    by (simp add: canonical_def fix_separators_def contains_single replace_single_delete)
qed

text \<open>
  C5. For every input string that contains both a comma and a dot, the separator
  that occurs later in the string is the decimal separator and the other one is
  removed as grouping: the string handed to the float parser is the cleaned input
  read that way, and the result of the normalizer is its parse. In particular
  \<open>1.234,56\<close> and \<open>1,234.56\<close> both normalize to the float \<open>1234.56\<close>.
\<close>

theorem later_separator_is_decimal:
  "(comma \<in> set x \<and> dot \<in> set x \<longrightarrow>
      canonical x =
        (if later_separator x = comma then comma_is_decimal (strip_symbols x)
         else dot_is_decimal (strip_symbols x))
      \<and> parse_br_number (CStr x) =
        Inr (to_numeric
          (if later_separator x = comma then comma_is_decimal (strip_symbols x)
           else dot_is_decimal (strip_symbols x))))
   \<and> parse_br_number (CStr (lit ''1.234,56'')) = Inr (float_lit (123456 / 100))
   \<and> parse_br_number (CStr (lit ''1,234.56'')) = Inr (float_lit (123456 / 100))"
proof -
  have "parse_br_number (CStr (lit ''1.234,56'')) = Inr (float_lit (123456 / 100))"
    by (simp add: parse_eval float_eval)
  moreover have "parse_br_number (CStr (lit ''1,234.56'')) = Inr (float_lit (123456 / 100))"
    by (simp add: parse_eval float_eval)
  ultimately show ?thesis
    using canonical_both [of x] by (simp add: parse_br_number_str)
qed

theorem later_separator_is_decimal_witness:
  "comma \<in> set (lit ''1.234,56'') \<and> dot \<in> set (lit ''1.234,56'')
   \<and> later_separator (lit ''1.234,56'') = comma
   \<and> canonical (lit ''1.234,56'') = comma_is_decimal (strip_symbols (lit ''1.234,56''))
   \<and> comma_is_decimal (strip_symbols (lit ''1.234,56'')) = lit ''1234.56''"
  using later_separator_is_decimal [of "lit ''1.234,56''"]
  by (simp add: lit_def comma_def dot_def later_separator_def is_sep_def comma_is_decimal_def
      strip_symbols_def strip_def isspace_def)

text \<open>
  C6. For an input string that contains a dot and no comma the dot is kept as the
  decimal separator: nothing is removed by the separator rule, and every dot of the
  input is still there. In particular \<open>1.234\<close> normalizes to the float \<open>1.234\<close>,
  which is not the float \<open>1234\<close>.
\<close>

theorem dot_only_kept_as_decimal:
  "(dot \<in> set x \<and> comma \<notin> set x \<longrightarrow>
      canonical x = strip_symbols x
      \<and> filter (\<lambda>c. c = dot) (canonical x) = filter (\<lambda>c. c = dot) x)
   \<and> parse_br_number (CStr (lit ''1.234'')) = Inr (float_lit (1234 / 1000))
   \<and> float_lit (1234 / 1000) \<noteq> float_lit 1234"
proof -
  have "parse_br_number (CStr (lit ''1.234'')) = Inr (float_lit (1234 / 1000))"
    by (simp add: parse_eval float_eval)
  moreover have "float_lit (1234 / 1000) \<noteq> float_lit 1234"
    by (simp add: float_eval)
  moreover have "filter (\<lambda>c. c = dot) (strip_symbols x) = filter (\<lambda>c. c = dot) x"
    by (rule filter_strip_symbols) (simp add: is_sep_def)
  ultimately show ?thesis
    using canonical_no_comma [of x] by simp
qed

theorem dot_only_kept_as_decimal_witness:
  "dot \<in> set (lit ''1.234'') \<and> comma \<notin> set (lit ''1.234'')
   \<and> canonical (lit ''1.234'') = lit ''1.234''"
  using dot_only_kept_as_decimal [of "lit ''1.234''"]
  by (simp add: lit_def comma_def dot_def strip_symbols_def strip_def isspace_def)

text \<open>
  C9. For an input string that contains a comma and no dot the comma is the decimal
  separator: every comma of the cleaned input becomes the decimal point. In
  particular \<open>452,74\<close> normalizes to the float \<open>452.74\<close>.
\<close>

theorem comma_only_is_decimal:
  "(comma \<in> set x \<and> dot \<notin> set x \<longrightarrow>
      canonical x = map (\<lambda>c. if c = comma then dot else c) (strip_symbols x))
   \<and> parse_br_number (CStr (lit ''452,74'')) = Inr (float_lit (45274 / 100))"
proof -
  have "parse_br_number (CStr (lit ''452,74'')) = Inr (float_lit (45274 / 100))"
    by (simp add: parse_eval float_eval)
  moreover have "canonical x = map (\<lambda>c. if c = comma then dot else c) (strip_symbols x)"
    if "comma \<in> set x" and "dot \<notin> set x"
  proof -
    have "filter (\<lambda>c. c \<noteq> dot) (strip_symbols x) = strip_symbols x"
      using canonical_comma_only(2) [OF that] by (auto simp: filter_id_conv)
    then show ?thesis
      using canonical_comma_only(1) [OF that] by (simp add: comma_is_decimal_def)
  qed
  ultimately show ?thesis by simp
qed

theorem comma_only_is_decimal_witness:
  "comma \<in> set (lit ''452,74'') \<and> dot \<notin> set (lit ''452,74'')
   \<and> canonical (lit ''452,74'') = lit ''452.74''"
  using comma_only_is_decimal [of "lit ''452,74''"]
  by (simp add: lit_def comma_def dot_def strip_symbols_def strip_def isspace_def)

text \<open>
  C10. The normalizer is total on what does not parse: the empty string, \<open>None\<close>
  and \<open>abc\<close> give the missing marker, every string gives a value and no exception,
  and a string whose canonical form the float parser rejects gives the missing marker.
\<close>

theorem unparseable_is_missing:
  "parse_br_number (CStr []) = Inr NaN
   \<and> parse_br_number CNone = Inr NaN
   \<and> parse_br_number (CStr (lit ''abc'')) = Inr NaN
   \<and> (\<exists>v. parse_br_number (CStr s) = Inr v)
   \<and> (parse_float (canonical s) = None \<longrightarrow> parse_br_number (CStr s) = Inr NaN)"
proof -
  have "parse_br_number (CStr []) = Inr NaN"
    by (simp add: parse_eval)
  moreover have "parse_br_number CNone = Inr NaN"
    by (simp add: parse_br_number_def cell_isna_def)
  moreover have "parse_br_number (CStr (lit ''abc'')) = Inr NaN"
    by (simp add: parse_eval)
  ultimately show ?thesis
    by (simp add: parse_br_number_str to_numeric_def)
qed

theorem unparseable_is_missing_witness:
  "parse_float (canonical (lit ''abc'')) = None \<and> parse_br_number (CStr (lit ''abc'')) = Inr NaN"
  using unparseable_is_missing [of "lit ''abc''"]
  by (simp add: parse_eval)

section \<open>The metrics of one group: labels and deltas\<close>

lemmas metric_eval = metric_def hundred_def short_label_def long_label_def fnum_def fsgn_def
  isna_def fmt_mag_def sign_str_def digits10.simps lit_def em_dash_def Delta_sym_def
lemmas table_eval = montar_base_def select_sorted_def shift1_def category_code_def sample_table_def

lemmas sample_eval = table_eval zero_then_five_def missing_then_twelve_def ten_twelve_nine_def


lemma montar_base_three:
  assumes "select_sorted df_long g = [r1, r2, r3]"
  shows "montar_base df_long g = [metric r1 NaN, metric r2 (Nota r1), metric r3 (Nota r2)]"
  using assms by (simp add: montar_base_def shift1_def)

lemma m1: "Nota r = Num False 10 \<Longrightarrow>
   Delta (metric r NaN) = NaN \<and> Delta_pct (metric r NaN) = NaN \<and> label_text (metric r NaN) = lit ''Nota 10.00''"
  by (simp add: metric_eval float_eval)
lemma m2: "Nota r = Num False 12 \<Longrightarrow>
   Delta (metric r (Num False 10)) = Num False 2 \<and> Delta_pct (metric r (Num False 10)) = Num False 20
   \<and> label_text (metric r (Num False 10)) = lit ''Nota 12.00 ('' @ Delta_sym @ lit '' +2.00; +20.00%)''"
  by (simp add: metric_eval float_eval)
lemma m3: "Nota r = Num False 9 \<Longrightarrow>
   Delta (metric r (Num False 12)) = Num True 3 \<and> Delta_pct (metric r (Num False 12)) = Num True 25
   \<and> label_text (metric r (Num False 12)) = lit ''Nota 9.00 ('' @ Delta_sym @ lit '' -3.00; -25.00%)''"
  by (simp add: metric_eval float_eval)
lemma length_shift1: "length (shift1 xs) = length xs"
  by (simp add: shift1_def)

lemma shift1_nth:
  "i < length xs \<Longrightarrow> shift1 xs ! i = (if i = 0 then NaN else xs ! (i - 1))"
  by (cases i) (auto simp: shift1_def nth_butlast)

lemma length_montar_base: "length (montar_base df_long g) = length (select_sorted df_long g)"
  by (simp add: montar_base_def Let_def length_shift1)

lemma montar_base_nth:
  assumes "i < length (select_sorted df_long g)"
  shows "montar_base df_long g ! i =
     metric (select_sorted df_long g ! i)
       (if i = 0 then NaN else Nota (select_sorted df_long g ! (i - 1)))"
  using assms by (simp add: montar_base_def Let_def length_shift1 shift1_nth)

lemma metric_fields:
  "Nota (metric r prev) = Nota r"
  "Avaliacao (metric r prev) = Avaliacao r"
  "Regional (metric r prev) = Regional r"
  "Nota_anterior (metric r prev) = prev"
  "Delta (metric r prev) = fsub (Nota r) prev"
  "Delta_pct (metric r prev) = fmul (fdiv (fsub (Nota r) prev) prev) hundred"
  "label_text (metric r prev) =
     (if isna prev then short_label (Nota r)
      else long_label (Nota r) (fsub (Nota r) prev) (fmul (fdiv (fsub (Nota r) prev) prev) hundred))"
  by (simp_all add: metric_def Let_def)

lemma nota_montar_base_nth:
  "k < length (select_sorted df_long g) \<Longrightarrow>
   Nota (montar_base df_long g ! k) = Nota (select_sorted df_long g ! k)"
  by (simp add: montar_base_nth metric_fields)

lemma montar_base_is_metric:
  assumes "m \<in> set (montar_base df_long g)"
  shows "\<exists>r. m = metric r (Nota_anterior m)"
proof -
  from assms obtain r prev where "m = metric r prev"
    by (auto simp: montar_base_def Let_def)
  then show ?thesis
    by (auto simp: metric_fields)
qed

text \<open>
  C3, as the code has it. The claim gives the short label to the first row only and
  the long label, with em-dashes, to a later row whose previous value is missing.
  The code chooses by the previous value itself: a row has the short label
  \<open>Nota\<close> plus its value exactly when its previous value is missing, which is the
  first row and also every row that follows a row without a value; every other row
  has the long label. In both labels a missing number is the em-dash.
\<close>

theorem label_by_previous_value:
  "fnum NaN = em_dash \<and> fsgn NaN = em_dash
   \<and> (i < length (montar_base df_long g) \<longrightarrow>
       Nota_anterior (montar_base df_long g ! i) =
         (if i = 0 then NaN else Nota (montar_base df_long g ! (i - 1)))
       \<and> label_text (montar_base df_long g ! i) =
         (if isna (Nota_anterior (montar_base df_long g ! i))
          then lit ''Nota '' @ fnum (Nota (montar_base df_long g ! i))
          else lit ''Nota '' @ fnum (Nota (montar_base df_long g ! i))
               @ lit '' ('' @ Delta_sym @ lit '' '' @ fsgn (Delta (montar_base df_long g ! i))
               @ lit ''; '' @ fsgn (Delta_pct (montar_base df_long g ! i)) @ lit ''%)''))"
proof -
  have "fnum NaN = em_dash" and "fsgn NaN = em_dash"
    by (simp_all add: fnum_def fsgn_def isna_def)
  moreover have "Nota_anterior (montar_base df_long g ! i) =
         (if i = 0 then NaN else Nota (montar_base df_long g ! (i - 1)))
       \<and> label_text (montar_base df_long g ! i) =
         (if isna (Nota_anterior (montar_base df_long g ! i))
          then lit ''Nota '' @ fnum (Nota (montar_base df_long g ! i))
          else lit ''Nota '' @ fnum (Nota (montar_base df_long g ! i))
               @ lit '' ('' @ Delta_sym @ lit '' '' @ fsgn (Delta (montar_base df_long g ! i))
               @ lit ''; '' @ fsgn (Delta_pct (montar_base df_long g ! i)) @ lit ''%)'')"
    if "i < length (montar_base df_long g)"
  proof -
    from that have i: "i < length (select_sorted df_long g)"
      by (simp add: length_montar_base)
    have "Nota (montar_base df_long g ! (i - 1)) = Nota (select_sorted df_long g ! (i - 1))"
      using i by (simp add: nota_montar_base_nth)
    then show ?thesis
      by (simp add: montar_base_nth [OF i] metric_fields short_label_def long_label_def)
  qed
  ultimately show ?thesis by blast
qed

theorem label_by_previous_value_witness:
  "(1::nat) < length (montar_base ten_twelve_nine (lit ''A''))
   \<and> Nota_anterior (montar_base ten_twelve_nine (lit ''A'') ! 1)
       = Nota (montar_base ten_twelve_nine (lit ''A'') ! 0)
   \<and> \<not> isna (Nota_anterior (montar_base ten_twelve_nine (lit ''A'') ! 1))
   \<and> label_text (montar_base ten_twelve_nine (lit ''A'') ! 1)
       = lit ''Nota '' @ fnum (Nota (montar_base ten_twelve_nine (lit ''A'') ! 1))
         @ lit '' ('' @ Delta_sym @ lit '' ''
         @ fsgn (Delta (montar_base ten_twelve_nine (lit ''A'') ! 1))
         @ lit ''; '' @ fsgn (Delta_pct (montar_base ten_twelve_nine (lit ''A'') ! 1)) @ lit ''%)''"
proof -
  have h: "(1::nat) < length (montar_base ten_twelve_nine (lit ''A''))"
    by (simp add: length_montar_base sample_eval lit_def)
  have e: "\<not> isna (Nota_anterior (montar_base ten_twelve_nine (lit ''A'') ! 1))"
    by (simp add: sample_eval Let_def metric_fields lit_def isna_def)
  show ?thesis
    using label_by_previous_value [of 1 ten_twelve_nine "lit ''A''"] h e by simp
qed

text \<open>
  C3 as claimed fails on the values \<open>[missing, 12.0]\<close>: the second row is not the
  first of its group, yet its label is the short \<open>Nota 12.00\<close>, not the long form
  with em-dashes.
\<close>

theorem missing_predecessor_counterexample:
  "length (montar_base missing_then_twelve (lit ''A'')) = 2
   \<and> Nota (montar_base missing_then_twelve (lit ''A'') ! 1) = Num False 12
   \<and> label_text (montar_base missing_then_twelve (lit ''A'') ! 1) = lit ''Nota 12.00''
   \<and> label_text (montar_base missing_then_twelve (lit ''A'') ! 1)
       \<noteq> lit ''Nota 12.00 ('' @ Delta_sym @ lit '' '' @ em_dash @ lit ''; '' @ em_dash @ lit ''%)''"
  by (simp add: sample_eval metric_eval float_eval)

text \<open>
  The selection of line 83. A table lists its categories in sheet order; when the
  three categories of a group occur in it as \<open>c1, c2, c3\<close>, their codes increase in
  that order, and a list of three rows sorted by strictly increasing keys is fixed by
  its set of rows.
\<close>

lemma category_code_at:
  assumes "cats = pre @ c # post" and "c \<notin> set pre"
  shows "category_code cats c = length pre"
proof -
  have "takeWhile (\<lambda>x. x \<noteq> c) (pre @ c # post) = pre"
    using assms(2) by (induction pre) auto
  then show ?thesis
    by (simp add: category_code_def assms(1))
qed

lemma codes_increasing:
  assumes "filter (\<lambda>c. c \<in> {c1, c2, c3}) cats = [c1, c2, c3]"
    and "distinct [c1, c2, c3]"
  shows "category_code cats c1 < category_code cats c2"
    and "category_code cats c2 < category_code cats c3"
proof -
  let ?P = "\<lambda>c. c \<in> {c1, c2, c3}"
  from assms(1) obtain A r1 where a: "cats = A @ c1 # r1" "\<forall>u\<in>set A. \<not> ?P u"
    and f1: "[c2, c3] = filter ?P r1"
    unfolding filter_eq_Cons_iff by blast
  from f1 [symmetric] obtain B r2 where b: "r1 = B @ c2 # r2" "\<forall>u\<in>set B. \<not> ?P u"
    and f2: "[c3] = filter ?P r2"
    unfolding filter_eq_Cons_iff by blast
  from f2 [symmetric] obtain C D where c: "r2 = C @ c3 # D" "\<forall>u\<in>set C. \<not> ?P u"
    unfolding filter_eq_Cons_iff by blast
  have k1: "category_code cats c1 = length A"
    using a by (intro category_code_at [of _ _ _ r1]) auto
  have "cats = (A @ c1 # B) @ c2 # r2"
    by (simp add: a b)
  moreover have "c2 \<notin> set (A @ c1 # B)"
    using a(2) b(2) assms(2) by auto
  ultimately have k2: "category_code cats c2 = length (A @ c1 # B)"
    by (rule category_code_at)
  have "cats = (A @ c1 # B @ c2 # C) @ c3 # D"
    by (simp add: a b c)
  moreover have "c3 \<notin> set (A @ c1 # B @ c2 # C)"
    using a(2) b(2) c(2) assms(2) by auto
  ultimately have k3: "category_code cats c3 = length (A @ c1 # B @ c2 # C)"
    by (rule category_code_at)
  show "category_code cats c1 < category_code cats c2"
    by (simp add: k1 k2)
  show "category_code cats c2 < category_code cats c3"
    by (simp add: k2 k3)
qed

lemma three_sorted:
  fixes f :: "'a \<Rightarrow> nat"
  assumes "length ys = 3" and "set ys = {a, b, c}"
    and "f a < f b" and "f b < f c" and "sorted (map f ys)"
  shows "ys = [a, b, c]"
proof -
  from assms(1) obtain x y z where ys: "ys = [x, y, z]"
    by (auto simp: length_Suc_conv numeral_3_eq_3)
  have s: "{x, y, z} = {a, b, c}"
    using assms(2) ys by simp
  have o: "f x \<le> f y" "f y \<le> f z"
    using assms(5) ys by simp_all
  have mx: "x \<in> {a, b, c}" and my: "y \<in> {a, b, c}" and mz: "z \<in> {a, b, c}"
    using s by blast+
  have ma: "a \<in> {x, y, z}" and mb: "b \<in> {x, y, z}" and mc: "c \<in> {x, y, z}"
    using s by blast+
  have "x = a"
    using mx ma o assms(3,4) by auto
  moreover have "z = c"
    using mz mc o assms(3,4) by auto
  moreover have "y = b"
    using my mb o assms(3,4) \<open>x = a\<close> \<open>z = c\<close> by auto
  ultimately show ?thesis
    by (simp add: ys)
qed

text \<open>
  C4. Take any long table whose ordered category set lists \<open>c1\<close>, \<open>c2\<close>, \<open>c3\<close>
  in that order, and a group whose rows in the table are, wherever and in whatever
  order they are stored among the rows of other groups, the three rows with the values
  \<open>10.0\<close> at \<open>c1\<close>, \<open>12.0\<close> at \<open>c2\<close> and \<open>9.0\<close> at \<open>c3\<close>. Then
  \<open>montar_base\<close> selects these rows, puts them in category order, and yields the
  previous values \<open>[missing, 10.0, 12.0]\<close>, the deltas \<open>[missing, 2.0, -3.0]\<close>, the
  percentages \<open>[missing, 20.0, -25.0]\<close> and the labels \<open>Nota 10.00\<close>,
  \<open>Nota 12.00 (\<Delta> +2.00; +20.00%)\<close> and \<open>Nota 9.00 (\<Delta> -3.00; -25.00%)\<close>.
\<close>

theorem ten_twelve_nine_metrics:
  assumes "filter (\<lambda>c. c \<in> {c1, c2, c3}) (categories df_long) = [c1, c2, c3]"
    and "distinct [c1, c2, c3]"
    and "length (filter (\<lambda>r. Regional r = Some g) (long_rows df_long)) = 3"
    and "set (filter (\<lambda>r. Regional r = Some g) (long_rows df_long)) =
           {\<lparr>Regional = Some g, Avaliacao = c1, Nota = Num False 10\<rparr>,
            \<lparr>Regional = Some g, Avaliacao = c2, Nota = Num False 12\<rparr>,
            \<lparr>Regional = Some g, Avaliacao = c3, Nota = Num False 9\<rparr>}"
  shows "map Avaliacao (montar_base df_long g) = [c1, c2, c3]
   \<and> map Nota_anterior (montar_base df_long g) = [NaN, Num False 10, Num False 12]
   \<and> map Delta (montar_base df_long g) = [NaN, Num False 2, Num True 3]
   \<and> map Delta_pct (montar_base df_long g) = [NaN, Num False 20, Num True 25]
   \<and> map label_text (montar_base df_long g) =
       [lit ''Nota 10.00'',
        lit ''Nota 12.00 ('' @ Delta_sym @ lit '' +2.00; +20.00%)'',
        lit ''Nota 9.00 ('' @ Delta_sym @ lit '' -3.00; -25.00%)'']"
proof -
  let ?f = "\<lambda>r. category_code (categories df_long) (Avaliacao r)"
  let ?a = "\<lparr>Regional = Some g, Avaliacao = c1, Nota = Num False 10\<rparr>"
  let ?b = "\<lparr>Regional = Some g, Avaliacao = c2, Nota = Num False 12\<rparr>"
  let ?c = "\<lparr>Regional = Some g, Avaliacao = c3, Nota = Num False 9\<rparr>"
  have sel: "select_sorted df_long g = [?a, ?b, ?c]"
  proof (rule three_sorted [where f = ?f])
    show "length (select_sorted df_long g) = 3"
      using assms(3) by (simp add: select_sorted_def)
    show "set (select_sorted df_long g) = {?a, ?b, ?c}"
      using assms(4) by (simp add: select_sorted_def)
    show "?f ?a < ?f ?b" and "?f ?b < ?f ?c"
      using codes_increasing [OF assms(1,2)] by simp_all
    show "sorted (map ?f (select_sorted df_long g))"
      by (simp add: select_sorted_def)
  qed
  have mb: "montar_base df_long g =
      [metric ?a NaN, metric ?b (Num False 10), metric ?c (Num False 12)]"
    using montar_base_three [OF sel] by simp
  show ?thesis
    unfolding mb using m1 [of ?a] m2 [of ?b] m3 [of ?c]
    by (simp add: metric_fields(1-4))
qed

theorem ten_twelve_nine_metrics_witness:
  "filter (\<lambda>c. c \<in> {lit ''R10'', lit ''R2'', lit ''R1''}) (categories two_groups)
     = [lit ''R10'', lit ''R2'', lit ''R1'']
   \<and> distinct [lit ''R10'', lit ''R2'', lit ''R1'']
   \<and> length (filter (\<lambda>r. Regional r = Some (lit ''A'')) (long_rows two_groups)) = 3
   \<and> set (filter (\<lambda>r. Regional r = Some (lit ''A'')) (long_rows two_groups)) =
         {\<lparr>Regional = Some (lit ''A''), Avaliacao = lit ''R10'', Nota = Num False 10\<rparr>,
          \<lparr>Regional = Some (lit ''A''), Avaliacao = lit ''R2'', Nota = Num False 12\<rparr>,
          \<lparr>Regional = Some (lit ''A''), Avaliacao = lit ''R1'', Nota = Num False 9\<rparr>}
   \<and> map Avaliacao (montar_base two_groups (lit ''A'')) = [lit ''R10'', lit ''R2'', lit ''R1'']
   \<and> map Nota_anterior (montar_base two_groups (lit ''A'')) = [NaN, Num False 10, Num False 12]
   \<and> map Delta_pct (montar_base two_groups (lit ''A'')) = [NaN, Num False 20, Num True 25]"
proof -
  have h1: "filter (\<lambda>c. c \<in> {lit ''R10'', lit ''R2'', lit ''R1''}) (categories two_groups)
     = [lit ''R10'', lit ''R2'', lit ''R1'']"
    by (simp add: two_groups_def lit_def)
  have h2: "distinct [lit ''R10'', lit ''R2'', lit ''R1'']"
    by (simp add: lit_def)
  have h3: "length (filter (\<lambda>r. Regional r = Some (lit ''A'')) (long_rows two_groups)) = 3"
    by (simp add: two_groups_def lit_def)
  have h4: "set (filter (\<lambda>r. Regional r = Some (lit ''A'')) (long_rows two_groups)) =
         {\<lparr>Regional = Some (lit ''A''), Avaliacao = lit ''R10'', Nota = Num False 10\<rparr>,
          \<lparr>Regional = Some (lit ''A''), Avaliacao = lit ''R2'', Nota = Num False 12\<rparr>,
          \<lparr>Regional = Some (lit ''A''), Avaliacao = lit ''R1'', Nota = Num False 9\<rparr>}"
    by (auto simp: two_groups_def lit_def)
  show ?thesis
    using ten_twelve_nine_metrics [OF h1 h2 h3 h4] h1 h2 h3 h4 by simp
qed

lemma fsub_zero:
  assumes "0 < q" and "representable (Num s q)"
  shows "fsub (Num s q) (Num t 0) = Num s q"
proof -
  have "round_mag q = Some q"
    using assms(2) by (simp add: representable_def)
  moreover have "sval s q \<noteq> 0" and "(sval s q < 0) = s" and "\<bar>sval s q\<bar> = q"
    using assms(1) by (auto simp: sval_def)
  ultimately show ?thesis
    by (simp add: rnd_signed_def rnd_def sval_def)
qed

text \<open>
  C2, as the code has it. When the previous value is zero and the current value is a
  finite float other than zero, the delta is the current value and the division does
  not raise; the percentage is an infinity, positive when value and zero have the same
  sign and negative otherwise. \<open>pd.isna\<close> does not count an infinity as missing, so
  the label shows \<open>+inf\<close> or \<open>-inf\<close> as its percentage, not the em-dash.
\<close>

theorem zero_previous_gives_infinity:
  assumes "m \<in> set (montar_base df_long g)"
    and "Nota_anterior m = Num t 0"
    and "Nota m = Num s q" and "0 < q" and "representable (Nota m)"
  shows "Delta m = Nota m
   \<and> Delta_pct m = Inf (s \<noteq> t)
   \<and> \<not> isna (Delta_pct m)
   \<and> label_text m =
       lit ''Nota '' @ format_2f False (Nota m) @ lit '' ('' @ Delta_sym @ lit '' ''
       @ format_2f True (Nota m) @ lit ''; ''
       @ (if s \<noteq> t then lit ''-inf'' else lit ''+inf'') @ lit ''%)''"
proof -
  from assms(1) obtain r where m: "m = metric r (Nota_anterior m)"
    using montar_base_is_metric by blast
  have r: "Nota r = Num s q"
    using m assms(3) by (metis metric_fields(1))
  have "representable (Num s q)"
    using assms(3,5) by simp
  then have d: "fsub (Nota r) (Num t 0) = Num s q"
    unfolding r by (rule fsub_zero [OF assms(4)])
  have p: "fmul (fdiv (Num s q) (Num t 0)) hundred = Inf (s \<noteq> t)"
    using assms(4) by (simp add: hundred_def)
  have "Delta m = Num s q" and "Delta_pct m = Inf (s \<noteq> t)"
    and "label_text m = long_label (Num s q) (Num s q) (Inf (s \<noteq> t))"
    using m assms(2) r d p
    by (metis metric_fields(5), metis metric_fields(6), metis metric_fields(7) isna_def float64.distinct(3))
  then show ?thesis
    using assms(3)
    by (auto simp: isna_def long_label_def fnum_def fsgn_def sign_str_def lit_def)
qed

theorem zero_previous_gives_infinity_witness:
  "montar_base zero_then_five (lit ''A'') ! 1 \<in> set (montar_base zero_then_five (lit ''A''))
   \<and> Nota_anterior (montar_base zero_then_five (lit ''A'') ! 1) = Num False 0
   \<and> Nota (montar_base zero_then_five (lit ''A'') ! 1) = Num False 5
   \<and> (0::rat) < 5
   \<and> representable (Nota (montar_base zero_then_five (lit ''A'') ! 1))
   \<and> Delta_pct (montar_base zero_then_five (lit ''A'') ! 1) = Inf False"
proof -
  have h: "montar_base zero_then_five (lit ''A'') ! 1 \<in> set (montar_base zero_then_five (lit ''A''))"
    "Nota_anterior (montar_base zero_then_five (lit ''A'') ! 1) = Num False 0"
    "Nota (montar_base zero_then_five (lit ''A'') ! 1) = Num False 5"
    by (simp_all add: sample_eval Let_def metric_fields lit_def)
  have r: "representable (Nota (montar_base zero_then_five (lit ''A'') ! 1))"
    unfolding h(3) by (simp add: representable_def float_eval)
  show ?thesis
    using zero_previous_gives_infinity [OF h(1) h(2) h(3) _ r] h r by simp
qed

text \<open>
  C2 as claimed fails at previous value \<open>0.0\<close> and current value \<open>5.0\<close>: the
  percentage is plus infinity, which is not the missing marker, and the label ends in
  \<open>+inf%\<close> where the claim has the em-dash.
\<close>

theorem zero_previous_counterexample:
  "Nota_anterior (montar_base zero_then_five (lit ''A'') ! 1) = Num False 0
   \<and> Nota (montar_base zero_then_five (lit ''A'') ! 1) = Num False 5
   \<and> Delta (montar_base zero_then_five (lit ''A'') ! 1) = Num False 5
   \<and> Delta_pct (montar_base zero_then_five (lit ''A'') ! 1) = Inf False
   \<and> \<not> isna (Delta_pct (montar_base zero_then_five (lit ''A'') ! 1))
   \<and> label_text (montar_base zero_then_five (lit ''A'') ! 1)
       = lit ''Nota 5.00 ('' @ Delta_sym @ lit '' +5.00; +inf%)''
   \<and> label_text (montar_base zero_then_five (lit ''A'') ! 1)
       \<noteq> lit ''Nota 5.00 ('' @ Delta_sym @ lit '' +5.00; '' @ em_dash @ lit ''%)''"
  by (simp add: sample_eval metric_eval float_eval)

section \<open>The reshaped table\<close>

lemma collect_Inr: "collect xs = Inr vs \<Longrightarrow> xs = map Inr vs"
  by (induction xs arbitrary: vs) (auto split: sum.splits)


lemma normalise_column_length:
  "normalise_column b cells = Inr v \<Longrightarrow> length v = length cells"
  by (auto simp: normalise_column_def dest!: collect_Inr split: if_splits)
    (metis length_map)












lemma melt_Nil: "melt labels [] = []"
  by (simp add: melt_def)

lemma melt_Cons:
  "melt labels ((c, v) # cols) =
     map (\<lambda>(g, x). \<lparr>Regional = g, Avaliacao = c, Nota = x\<rparr>) (zip labels v) @ melt labels cols"
  by (simp add: melt_def)


lemma col_Avaliacao:
  "length v = length labels \<Longrightarrow>
   map Avaliacao (map (\<lambda>(g, x). \<lparr>Regional = g, Avaliacao = c, Nota = x\<rparr>) (zip labels v))
     = replicate (length labels) c"
proof (induction labels arbitrary: v)
  case Nil
  then show ?case by simp
next
  case (Cons a labels)
  then show ?case by (cases v) auto
qed

lemma col_Avaliacao_filter:
  "length v = length labels \<Longrightarrow>
   map Avaliacao (filter (\<lambda>r. Regional r = Some g)
       (map (\<lambda>(g, x). \<lparr>Regional = g, Avaliacao = c, Nota = x\<rparr>) (zip labels v)))
     = replicate (count_list labels (Some g)) c"
proof (induction labels arbitrary: v)
  case Nil
  then show ?case by simp
next
  case (Cons a labels)
  then show ?case by (cases v) auto
qed


lemma Avaliacao_melt:
  "(\<forall>(c, v)\<in>set cols. length v = length labels) \<Longrightarrow>
   map Avaliacao (melt labels cols) = concat (map (\<lambda>(c, v). replicate (length labels) c) cols)"
proof (induction cols)
  case Nil
  then show ?case by (simp add: melt_Nil)
next
  case (Cons a cols)
  obtain c v where a: "a = (c, v)"
    by (cases a)
  with Cons show ?case
    by (simp add: melt_Cons col_Avaliacao del: map_map)
qed

lemma Avaliacao_filter_melt:
  "(\<forall>(c, v)\<in>set cols. length v = length labels) \<Longrightarrow>
   map Avaliacao (filter (\<lambda>r. Regional r = Some g) (melt labels cols))
     = concat (map (\<lambda>(c, v). replicate (count_list labels (Some g)) c) cols)"
proof (induction cols)
  case Nil
  then show ?case by (simp add: melt_Nil)
next
  case (Cons a cols)
  obtain c v where a: "a = (c, v)"
    by (cases a)
  with Cons show ?case
    by (simp add: melt_Cons col_Avaliacao_filter del: map_map)
qed

lemma Avaliacao_in_melt: "r \<in> set (melt labels cols) \<Longrightarrow> Avaliacao r \<in> fst ` set cols"
  by (force simp: melt_def)

lemma map_zip_fst: "length xs = length ys \<Longrightarrow> map (\<lambda>(c, v). f c) (zip xs ys) = map f xs"
  by (induction xs ys rule: list_induct2) auto

lemma preparar_df_unfold:
  "column_A df \<noteq> [] \<Longrightarrow>
   preparar_df df =
     (case collect (map (\<lambda>(c, cells). normalise_column (is_numeric_dtype cells)
                            (if has_presence_marker df then butlast cells else cells))
                      (aval_cols df)) of
        Inl e \<Rightarrow> Inl e
      | Inr vals \<Rightarrow>
          Inr \<lparr>categories = map fst (aval_cols df),
               long_rows = melt (kept_labels df) (zip (map fst (aval_cols df)) vals)\<rparr>)"
  by (cases "has_presence_marker df")
    (simp_all add: preparar_df_def kept_labels_def Let_def cong: sum.case_cong)

lemma preparar_df_Inr:
  assumes "well_formed df" and "preparar_df df = Inr T"
  shows "\<exists>vals. length vals = length (aval_cols df)
           \<and> (\<forall>v\<in>set vals. length v = length (kept_labels df))
           \<and> T = \<lparr>categories = map fst (aval_cols df),
                   long_rows = melt (kept_labels df) (zip (map fst (aval_cols df)) vals)\<rparr>"
proof -
  define f where "f = (\<lambda>(c :: pystr, cells). normalise_column (is_numeric_dtype cells)
               (if has_presence_marker df then butlast cells else cells))"
  have ne: "column_A df \<noteq> []"
  proof
    assume "column_A df = []"
    then have "preparar_df df = Inl IndexError"
      by (simp add: preparar_df_def)
    with assms(2) show False
      by simp
  qed
  have u: "preparar_df df =
     (case collect (map f (aval_cols df)) of
        Inl e \<Rightarrow> Inl e
      | Inr vals \<Rightarrow>
          Inr \<lparr>categories = map fst (aval_cols df),
               long_rows = melt (kept_labels df) (zip (map fst (aval_cols df)) vals)\<rparr>)"
    unfolding f_def by (rule preparar_df_unfold [OF ne])
  obtain vals where c: "collect (map f (aval_cols df)) = Inr vals"
    and T: "T = \<lparr>categories = map fst (aval_cols df),
                 long_rows = melt (kept_labels df) (zip (map fst (aval_cols df)) vals)\<rparr>"
  proof (cases "collect (map f (aval_cols df))")
    case (Inl e)
    with u assms(2) show ?thesis
      by simp
  next
    case (Inr vals)
    with u assms(2) that show ?thesis
      by simp
  qed
  from collect_Inr [OF c] have m: "map f (aval_cols df) = map Inr vals" .
  then have l: "length vals = length (aval_cols df)"
    by (metis length_map)
  have "length v = length (kept_labels df)" if "v \<in> set vals" for v
  proof -
    from that obtain i where i: "i < length vals" and v: "v = vals ! i"
      by (auto simp: in_set_conv_nth)
    obtain c cells where cc: "aval_cols df ! i = (c, cells)"
      by (cases "aval_cols df ! i")
    from i l have "map f (aval_cols df) ! i = f (aval_cols df ! i)"
      by simp
    moreover from i have "map Inr vals ! i = Inr v"
      by (simp add: v)
    ultimately have "f (aval_cols df ! i) = Inr v"
      by (metis m)
    then have "normalise_column (is_numeric_dtype cells)
        (if has_presence_marker df then butlast cells else cells) = Inr v"
      by (simp only: cc f_def prod.case)
    then have lv: "length v = length (if has_presence_marker df then butlast cells else cells)"
      by (rule normalise_column_length)
    have "(c, cells) \<in> set (aval_cols df)"
      using i l cc by (metis nth_mem)
    then have "length cells = length (column_A df)"
      using assms(1) by (auto simp: well_formed_def list_all_iff)
    with lv show ?thesis
      by (simp add: kept_labels_def)
  qed
  with l T show ?thesis
    by blast
qed




lemma nth_category_code: "c \<in> set cats \<Longrightarrow> cats ! category_code cats c = c"
  unfolding category_code_def by (induction cats) auto

lemma category_code_nth:
  "distinct cats \<Longrightarrow> i < length cats \<Longrightarrow> category_code cats (cats ! i) = i"
  using category_code_at [of cats "take i cats" "cats ! i" "drop (Suc i) cats"]
  by (simp add: id_take_nth_drop [symmetric] distinct_conv_nth in_set_conv_nth)

lemma sorted_blocks: "sorted (concat (map (replicate n) [0..<k]))"
  by (induction k) (auto simp: sorted_append)

lemma codes_of_blocks:
  assumes "distinct cats"
  shows "map (category_code cats) (concat (map (replicate n) cats))
           = concat (map (replicate n) [0..<length cats])"
proof -
  have "map (\<lambda>c. replicate n (category_code cats c)) cats = map (replicate n) [0..<length cats]"
    by (rule nth_equalityI) (simp_all add: category_code_nth assms)
  then show ?thesis
    by (simp add: map_concat comp_def)
qed

lemma sort_key_of_perm:
  assumes "mset xs = mset ys" and "sorted (map f ys)"
  shows "map f (sort_key f xs) = map f ys"
proof -
  have "mset (map f ys) = mset (map f (sort_key f xs))"
    using assms(1) by simp
  then have "sort (map f (sort_key f xs)) = map f ys"
    using assms(2) by (rule properties_for_sort)
  moreover have "sort (map f (sort_key f xs)) = map f (sort_key f xs)"
    by (rule sorted_sort_id) (rule sorted_sort_key)
  ultimately show ?thesis
    by simp
qed

lemma Avaliacao_from_codes:
  fixes xs ys :: "long_row list"
  assumes "\<forall>r\<in>set xs. Avaliacao r \<in> set cats" and "\<forall>r\<in>set ys. Avaliacao r \<in> set cats"
    and "map (\<lambda>r. category_code cats (Avaliacao r)) xs
           = map (\<lambda>r. category_code cats (Avaliacao r)) ys"
  shows "map Avaliacao xs = map Avaliacao ys"
proof -
  have "map Avaliacao zs = map ((!) cats) (map (\<lambda>r. category_code cats (Avaliacao r)) zs)"
    if "\<forall>r\<in>set zs. Avaliacao r \<in> set cats" for zs :: "long_row list"
    using that by (simp add: nth_category_code)
  with assms show ?thesis
    by metis
qed

lemma montar_base_Avaliacao:
  "map Avaliacao (montar_base df_long g) = map Avaliacao (select_sorted df_long g)"
  by (rule nth_equalityI) (simp_all add: length_montar_base montar_base_nth metric_fields)

text \<open>
  C8. For every sheet that \<open>preparar_df\<close> reshapes, the ordered category set of the
  long table is the list of the round columns in sheet order, and the rows of the long
  table run through the rounds in that order, one block per column. \<open>montar_base\<close>
  puts the rows of a group in that same order however the rows of the long table are
  permuted before it is called: for a group that has a row, its categories are the
  round columns in sheet order, each as many times as the group's label stands in the
  kept rows of column A. The
  order never depends on the spelling of the labels: \<open>R10\<close>, \<open>R2\<close>, \<open>R1\<close> stay
  in that order.
\<close>

theorem category_order_is_column_order:
  assumes "well_formed df" and "preparar_df df = Inr T" and "mset rows = mset (long_rows T)"
    and "Some g \<in> set (map Regional rows)"
  shows "categories T = map fst (aval_cols df)
     \<and> map Avaliacao (long_rows T) =
         concat (map (replicate (length (kept_labels df))) (map fst (aval_cols df)))
     \<and> map Avaliacao (montar_base \<lparr>categories = categories T, long_rows = rows\<rparr> g) =
         concat (map (replicate (count_list (kept_labels df) (Some g))) (map fst (aval_cols df)))"
proof -
  define names where "names = map fst (aval_cols df)"
  define kept where "kept = kept_labels df"
  define n where "n = count_list kept (Some g)"
  from preparar_df_Inr [OF assms(1,2)] obtain vals where
    lv: "length vals = length (aval_cols df)"
    and vs: "\<forall>v\<in>set vals. length v = length kept"
    and T: "T = \<lparr>categories = names, long_rows = melt kept (zip names vals)\<rparr>"
    unfolding names_def kept_def by blast
  let ?cols = "zip names vals"
  let ?P = "\<lambda>r. Regional r = Some g"
  let ?f = "\<lambda>r. category_code names (Avaliacao r)"
  let ?ys = "filter ?P (long_rows T)"
  let ?xs = "filter ?P rows"
  have ln: "length names = length vals"
    by (simp add: names_def lv)
  have cols: "\<forall>(c, v)\<in>set ?cols. length v = length kept"
    using vs by (auto dest: set_zip_rightD)
  have dn: "distinct names"
    using assms(1) by (simp add: well_formed_def names_def)
  have c1: "categories T = names"
    by (simp add: T)
  have c2: "map Avaliacao (long_rows T) = concat (map (replicate (length kept)) names)"
    by (simp add: T Avaliacao_melt [OF cols] map_zip_fst [OF ln])
  have ays: "map Avaliacao ?ys = concat (map (replicate n) names)"
    by (simp add: T Avaliacao_filter_melt [OF cols] map_zip_fst [OF ln] n_def)
  have "map ?f ?ys = map (category_code names) (map Avaliacao ?ys)"
    by simp
  also have "\<dots> = concat (map (replicate n) [0..<length names])"
    by (simp only: ays codes_of_blocks [OF dn])
  finally have srt: "sorted (map ?f ?ys)"
    by (simp only: sorted_blocks)
  have ms: "mset ?xs = mset ?ys"
    using assms(3) by (simp only: mset_filter)
  have codes: "map ?f (sort_key ?f ?xs) = map ?f ?ys"
    using ms srt by (rule sort_key_of_perm)
  have mem: "Avaliacao r \<in> set names" if "r \<in> set (long_rows T)" for r
  proof -
    from that have "Avaliacao r \<in> fst ` set ?cols"
      by (simp add: T Avaliacao_in_melt)
    then show ?thesis
      by (auto dest: set_zip_leftD)
  qed
  have sr: "set rows = set (long_rows T)"
    using assms(3) by (rule mset_eq_setD)
  have "map Avaliacao (sort_key ?f ?xs) = map Avaliacao ?ys"
  proof (rule Avaliacao_from_codes [OF _ _ codes])
    show "\<forall>r\<in>set (sort_key ?f ?xs). Avaliacao r \<in> set names"
      using mem sr by simp
    show "\<forall>r\<in>set ?ys. Avaliacao r \<in> set names"
      using mem by simp
  qed
  then have c3: "map Avaliacao (montar_base \<lparr>categories = categories T, long_rows = rows\<rparr> g)
      = concat (map (replicate n) names)"
    by (simp add: montar_base_Avaliacao select_sorted_def c1 ays)
  from c1 c2 c3 show ?thesis
    unfolding names_def kept_def n_def by simp
qed

theorem category_order_is_column_order_witness:
  "well_formed sample_sheet \<and> preparar_df sample_sheet = Inr sample_long
   \<and> mset (rev (long_rows sample_long)) = mset (long_rows sample_long)
   \<and> Some (lit ''A'') \<in> set (map Regional (rev (long_rows sample_long)))
   \<and> categories sample_long = [lit ''R10'', lit ''R2'', lit ''R1'']
   \<and> map Avaliacao (long_rows sample_long) =
       [lit ''R10'', lit ''R10'', lit ''R2'', lit ''R2'', lit ''R1'', lit ''R1'']
   \<and> map Avaliacao (montar_base \<lparr>categories = categories sample_long,
                                    long_rows = rev (long_rows sample_long)\<rparr> (lit ''A''))
       = [lit ''R10'', lit ''R2'', lit ''R1'']"
proof -
  have h1: "well_formed sample_sheet"
    by (simp add: sample_sheet_def well_formed_def lit_def)
  have m: "has_presence_marker sample_sheet"
    by (simp add: has_presence_marker_def sample_sheet_def py_str_def lower_def
        lower_cp_def lit_def)
  have p1: "parse_br_number (CStr (lit ''10,0'')) = Inr (Num False 10)"
    by (simp add: parse_eval float_eval)
  have p2: "parse_br_number (CFloat (Num False 3)) = Inr (Num False 3)"
    by (simp add: parse_br_number_def cell_isna_def isna_def)
  have n1: "numeric_value (CInt 12) = Num False 12" "numeric_value (CInt 4) = Num False 4"
    by (simp_all add: numeric_value_def float_eval)
  have n2: "numeric_value (CFloat (Num False 9)) = Num False 9" "numeric_value CNone = NaN"
    by (simp_all add: numeric_value_def)
  have d: "\<not> is_numeric_dtype [CStr (lit ''10,0''), CFloat (Num False 3), CStr (lit ''95%'')]"
    "is_numeric_dtype [CInt 12, CInt 4, CInt 90]"
    "is_numeric_dtype [CFloat (Num False 9), CNone, CFloat (Num False 80)]"
    by (simp_all add: is_numeric_dtype_def)
  have h2: "preparar_df sample_sheet = Inr sample_long"
    unfolding preparar_df_def Let_def
    by (simp add: m) (simp add: sample_sheet_def sample_long_def normalise_column_def
        d p1 p2 n1 n2 melt_def)
  have h3: "mset (rev (long_rows sample_long)) = mset (long_rows sample_long)"
    by simp
  have k: "kept_labels sample_sheet = [Some (lit ''A''), Some (lit ''B'')]"
    by (simp add: kept_labels_def m) (simp add: sample_sheet_def)
  have n: "map fst (aval_cols sample_sheet) = [lit ''R10'', lit ''R2'', lit ''R1'']"
    by (simp add: sample_sheet_def)
  have h4: "Some (lit ''A'') \<in> set (map Regional (rev (long_rows sample_long)))"
    by (simp add: sample_long_def)
  note t = category_order_is_column_order [OF h1 h2 h3 h4]
  have a: "categories sample_long = [lit ''R10'', lit ''R2'', lit ''R1'']"
    using t [THEN conjunct1] by (simp add: n)
  have b: "map Avaliacao (long_rows sample_long) =
       [lit ''R10'', lit ''R10'', lit ''R2'', lit ''R2'', lit ''R1'', lit ''R1'']"
    using t [THEN conjunct2, THEN conjunct1] by (simp add: k n)
  have c: "map Avaliacao (montar_base \<lparr>categories = categories sample_long,
                                    long_rows = rev (long_rows sample_long)\<rparr> (lit ''A''))
       = [lit ''R10'', lit ''R2'', lit ''R1'']"
    using t [THEN conjunct2, THEN conjunct2] by (simp add: k n lit_def)
  show ?thesis
    by (intro conjI h1 h2 h3 h4 a b c)
qed

end
